theory Spec2Isabelle
  imports Main
begin

section \<open>A movie watch list: the list-management core of \<open>script.js\<close>\<close>

text \<open>
  The script keeps an array \<open>movies\<close> of records \<open>{id, title, year, watched}\<close> and two
  view settings, \<open>currentFilter\<close> and \<open>currentQuery\<close>. Its functions add, toggle and
  remove records, project the visible records and count them. The globals become one
  record that every function takes and returns; the two page elements the functions write
  to (the rendered list and the stats line) are fields of that record.
\<close>

subsection \<open>Strings\<close>

text \<open>
  A JavaScript string is modelled as a \<^typ>\<open>string\<close> of ASCII characters. White space is
  the ASCII part of what \<open>String.prototype.trim\<close> strips (TAB, LF, VT, FF, CR, SP), and
  the case mappings are the ASCII ones. Characters beyond ASCII are outside the model:
  their case mappings can change the length of a string.
\<close>

definition is_space :: "char \<Rightarrow> bool" where
  "is_space c =
     (c = CHR 0x09 \<or> c = CHR 0x0A \<or> c = CHR 0x0B \<or> c = CHR 0x0C \<or> c = CHR 0x0D \<or>
      c = CHR '' '')"

definition trim :: "string \<Rightarrow> string" where
  "trim s = rev (dropWhile is_space (rev (dropWhile is_space s)))"

definition upper_char :: "char \<Rightarrow> char" where
  "upper_char c =
     (case map_of (zip ''abcdefghijklmnopqrstuvwxyz'' ''ABCDEFGHIJKLMNOPQRSTUVWXYZ'') c of
        None \<Rightarrow> c
      | Some u \<Rightarrow> u)"

definition lower_char :: "char \<Rightarrow> char" where
  "lower_char c =
     (case map_of (zip ''ABCDEFGHIJKLMNOPQRSTUVWXYZ'' ''abcdefghijklmnopqrstuvwxyz'') c of
        None \<Rightarrow> c
      | Some l \<Rightarrow> l)"

definition toUpperCase :: "string \<Rightarrow> string" where
  "toUpperCase s = map upper_char s"

definition toLowerCase :: "string \<Rightarrow> string" where
  "toLowerCase s = map lower_char s"

definition startsWith :: "string \<Rightarrow> string \<Rightarrow> bool" where
  "startsWith s q = (take (length q) s = q)"

text \<open>\<open>s.includes(q)\<close>: \<open>q\<close> starts at some position of \<open>s\<close>.\<close>

fun str_includes :: "string \<Rightarrow> string \<Rightarrow> bool" where
  "str_includes [] q = (q = [])"
| "str_includes (c # cs) q = (startsWith (c # cs) q \<or> str_includes cs q)"

text \<open>
  \<open>t.replace(/ {2,}/g, " ")\<close>: scanning from the left, a maximal run of two or more
  spaces is replaced by one space; any other character is copied.
\<close>

fun replace_runs :: "string \<Rightarrow> string" where
  "replace_runs [] = []"
| "replace_runs (c # cs) =
     (let k = length (takeWhile (\<lambda>x. x = CHR '' '') (c # cs))
      in if 2 \<le> k then CHR '' '' # replace_runs (drop k (c # cs)) else c # replace_runs cs)"

text \<open>\<open>t.split(sep)\<close> for a separator of one character; \<open>"".split(" ")\<close> is \<open>[""]\<close>.\<close>

fun split :: "char \<Rightarrow> string \<Rightarrow> string list" where
  "split sep [] = [[]]"
| "split sep (c # cs) =
     (if c = sep then [] # split sep cs
      else (case split sep cs of [] \<Rightarrow> [[c]] | w # ws \<Rightarrow> (c # w) # ws))"

fun join :: "string \<Rightarrow> string list \<Rightarrow> string" where
  "join sep [] = []"
| "join sep [w] = w"
| "join sep (w # ws) = w @ sep @ join sep ws"

subsection \<open>\<open>sanitizeTitle\<close>\<close>

lemma replace_runs_Cons:
  "replace_runs (c # cs) =
     (if c = CHR '' '' \<and> cs \<noteq> [] \<and> hd cs = CHR '' ''
      then CHR '' '' # replace_runs (dropWhile (\<lambda>x. x = CHR '' '') cs)
      else c # replace_runs cs)"
proof (cases "c = CHR '' '' \<and> cs \<noteq> [] \<and> hd cs = CHR '' ''")
  case True
  then obtain d ds where cs: "cs = d # ds" and d: "d = CHR '' ''" and c: "c = CHR '' ''"
    by (cases cs) auto
  have "drop (length (takeWhile (\<lambda>x. x = CHR '' '') ds)) ds = dropWhile (\<lambda>x. x = CHR '' '') ds"
    by (simp add: dropWhile_eq_drop)
  with cs d c show ?thesis by simp
next
  case False
  then have "length (takeWhile (\<lambda>x. x = CHR '' '') (c # cs)) < 2"
    by (cases cs) auto
  with False show ?thesis by (auto simp: Let_def)
qed

lemma length_replace_runs: "length (replace_runs t) \<le> length t"
proof (induction t rule: replace_runs.induct)
  case 1
  show ?case by simp
next
  case (2 c cs)
  show ?case
  proof (cases "2 \<le> length (takeWhile (\<lambda>x. x = CHR '' '') (c # cs))")
    case True
    with 2(1) [OF refl True] show ?thesis
      by (simp add: Let_def del: replace_runs.simps(2) takeWhile.simps) (simp add: Let_def)
  next
    case False
    with 2(2) [OF refl False] show ?thesis by (simp add: Let_def)
  qed
qed

lemma replace_runs_shrinks: "str_includes t ''  '' \<Longrightarrow> length (replace_runs t) < length t"
proof (induction t)
  case Nil
  then show ?case by simp
next
  case (Cons c cs)
  show ?case
  proof (cases "c = CHR '' '' \<and> cs \<noteq> [] \<and> hd cs = CHR '' ''")
    case True
    have "length (replace_runs (dropWhile (\<lambda>x. x = CHR '' '') cs))
            \<le> length (dropWhile (\<lambda>x. x = CHR '' '') cs)"
      by (rule length_replace_runs)
    moreover have "length (dropWhile (\<lambda>x. x = CHR '' '') cs) < length cs"
      using True by (cases cs) (auto simp: le_imp_less_Suc length_dropWhile_le)
    ultimately show ?thesis using True by (simp add: replace_runs_Cons del: replace_runs.simps)
  next
    case False
    with Cons.prems have "str_includes cs ''  ''"
      by (cases cs) (auto simp: startsWith_def)
    with Cons.IH False show ?thesis by (auto simp: replace_runs_Cons simp del: replace_runs.simps)
  qed
qed

text \<open>
  The loop \<open>while (t.includes("  ")) t = t.replace(/ {2,}/g, " ")\<close>. Each round
  shortens the string, so the loop ends.
\<close>

function collapse_loop :: "string \<Rightarrow> string" where
  "collapse_loop t = (if str_includes t ''  '' then collapse_loop (replace_runs t) else t)"
  by pat_completeness auto
termination
  by (relation "measure length") (auto simp: replace_runs_shrinks)

declare collapse_loop.simps [simp del]

text \<open>The arrow function mapped over the words: \<open>word[0]\<close> is undefined for an empty word.\<close>

definition title_word :: "string \<Rightarrow> string" where
  "title_word word =
     (case word of [] \<Rightarrow> [] | c # cs \<Rightarrow> toUpperCase [c] @ toLowerCase cs)"

definition sanitizeTitle :: "string \<Rightarrow> string" where
  "sanitizeTitle raw =
     (if raw = [] then []
      else let t = trim raw;
               t = collapse_loop t
           in join '' '' (map title_word (split (CHR '' '') t)))"

text \<open>
  The four rules of title normalisation as the specification words them: trim; collapse
  each run of two or more spaces into one; split on single spaces, capitalise each
  non-empty word, join with single spaces.
\<close>

fun squeeze_spaces :: "string \<Rightarrow> string" where
  "squeeze_spaces (a # b # cs) =
     (if a = CHR '' '' \<and> b = CHR '' '' then squeeze_spaces (b # cs)
      else a # squeeze_spaces (b # cs))"
| "squeeze_spaces cs = cs"

definition capitalise :: "string \<Rightarrow> string" where
  "capitalise w = upper_char (hd w) # map lower_char (tl w)"

definition title_rules :: "string \<Rightarrow> string" where
  "title_rules raw =
     (let trimmed = trim raw;
          collapsed = squeeze_spaces trimmed;
          ws = split (CHR '' '') collapsed
      in join '' '' (map (\<lambda>w. if w = [] then w else capitalise w) ws))"

subsection \<open>Numbers and years\<close>

text \<open>
  \<open>Number(year)\<close> turns the text of the year field into a number. The model keeps the
  values the program can tell apart on integer input: an integer, or \<open>NaN\<close>. A blank text
  converts to 0, an optionally signed run of decimal digits to its value, and a text that
  is no numeric literal to \<open>NaN\<close>. Fractions, exponents, radix prefixes and
  \<open>Infinity\<close> are literals of JavaScript that this model does not read; \<open>year_text\<close>
  below holds of the texts on which \<open>js_Number\<close> is JavaScript's conversion, and the
  statements that depend on the conversion assume it. (Beyond \<open>2^53\<close> JavaScript rounds
  the value; the rounded and the exact value fail the range check of \<open>addMovie\<close> alike.)
\<close>

datatype jsnum = NaN | Num int

definition is_digit :: "char \<Rightarrow> bool" where
  "is_digit c = (c \<in> set ''0123456789'')"

definition digit_value :: "char \<Rightarrow> int" where
  "digit_value c = int (length (takeWhile (\<lambda>d. d \<noteq> c) ''0123456789''))"

definition decimal :: "string \<Rightarrow> int" where
  "decimal ds = foldl (\<lambda>n c. 10 * n + digit_value c) 0 ds"

definition js_Number :: "string \<Rightarrow> jsnum" where
  "js_Number s =
     (case trim s of
        [] \<Rightarrow> Num 0
      | c # ds \<Rightarrow>
          if list_all is_digit (c # ds) then Num (decimal (c # ds))
          else if c = CHR ''+'' \<and> ds \<noteq> [] \<and> list_all is_digit ds then Num (decimal ds)
          else if c = CHR ''-'' \<and> ds \<noteq> [] \<and> list_all is_digit ds then Num (- decimal ds)
          else NaN)"

text \<open>
  Every numeric literal of JavaScript starts with a digit, a sign, a dot or the \<open>I\<close> of
  \<open>Infinity\<close>, so any other first character makes the text \<open>NaN\<close>.
\<close>

definition year_text :: "string \<Rightarrow> bool" where
  "year_text s =
     (case trim s of
        [] \<Rightarrow> True
      | c # ds \<Rightarrow>
          list_all is_digit (c # ds) \<or>
          ((c = CHR ''+'' \<or> c = CHR ''-'') \<and> ds \<noteq> [] \<and> list_all is_digit ds) \<or>
          c \<notin> set ''0123456789+-.I'')"

text \<open>
  The value of the \<open>year\<close> field is \<open>null\<close> (\<open>None\<close>) or a number. \<open>truthy\<close> is the
  test of \<open>yr && \<dots>\<close> and of \<open>!!yr\<close>: \<open>null\<close>, \<open>NaN\<close> and 0 are falsy. The comparisons
  convert \<open>null\<close> to 0 and are false on \<open>NaN\<close>; \<open>===\<close> never holds of \<open>NaN\<close>.
\<close>

fun truthy :: "jsnum option \<Rightarrow> bool" where
  "truthy None = False"
| "truthy (Some NaN) = False"
| "truthy (Some (Num n)) = (n \<noteq> 0)"

fun js_less :: "jsnum option \<Rightarrow> int \<Rightarrow> bool" where
  "js_less (Some (Num n)) k = (n < k)"
| "js_less (Some NaN) k = False"
| "js_less None k = (0 < k)"

fun js_greater :: "jsnum option \<Rightarrow> int \<Rightarrow> bool" where
  "js_greater (Some (Num n)) k = (k < n)"
| "js_greater (Some NaN) k = False"
| "js_greater None k = (k < 0)"

fun strict_eq :: "jsnum option \<Rightarrow> jsnum option \<Rightarrow> bool" where
  "strict_eq None None = True"
| "strict_eq (Some (Num a)) (Some (Num b)) = (a = b)"
| "strict_eq _ _ = False"

subsection \<open>The catalog and the page\<close>

record movie =
  movie_id :: string
  title :: string
  year :: "jsnum option"
  watched :: bool

text \<open>
  \<open>listEl\<close> holds the records that \<open>renderList\<close> last drew, in order, and \<open>statsText\<close>
  the three numbers (total, watched, remaining) that \<open>updateStats\<close> last wrote.
\<close>

record app_state =
  movies :: "movie list"
  currentFilter :: string
  currentQuery :: string
  listEl :: "movie list"
  statsText :: "int \<times> int \<times> int"

text \<open>
  \<open>addMovie\<close> has three early returns, each after a warning hint; they are the three
  errors, in the order of the source. The texts of the hints, the reset of the form, the
  focus and \<open>pickRandom\<close>, which changes nothing but its own output line, are left out.
\<close>

datatype validation_error = EmptyTitle | YearOutOfRange | Duplicate

definition getVisibleMovies :: "app_state \<Rightarrow> movie list" where
  "getVisibleMovies s =
     (let q = toLowerCase (trim (currentQuery s))
      in filter
           (\<lambda>m. let matchesFilter =
                      (currentFilter s = ''all'' \<or>
                       (currentFilter s = ''watched'' \<and> watched m) \<or>
                       (currentFilter s = ''unwatched'' \<and> \<not> watched m));
                    matchesQuery = (q = [] \<or> str_includes (toLowerCase (title m)) q)
                in matchesFilter \<and> matchesQuery)
           (movies s))"

definition renderList :: "app_state \<Rightarrow> app_state" where
  "renderList s = s\<lparr>listEl := getVisibleMovies s\<rparr>"

text \<open>The \<open>for\<close> loop of \<open>updateStats\<close>, from index \<open>i\<close> with \<open>w\<close> watched so far.\<close>

function count_watched :: "movie list \<Rightarrow> nat \<Rightarrow> int \<Rightarrow> int" where
  "count_watched ms i w =
     (if i < length ms then count_watched ms (i + 1) (if watched (ms ! i) then w + 1 else w)
      else w)"
  by pat_completeness auto
termination
  by (relation "measure (\<lambda>(ms, i, w). length ms - i)") auto

declare count_watched.simps [simp del]

definition updateStats :: "app_state \<Rightarrow> app_state" where
  "updateStats s =
     (let w = count_watched (movies s) 0 0;
          total = int (length (movies s));
          remaining = total - w
      in s\<lparr>statsText := (total, w, remaining)\<rparr>)"

text \<open>\<open>const yr = year ? Number(year) : null\<close>: the empty text is falsy.\<close>

definition year_of_input :: "string \<Rightarrow> jsnum option" where
  "year_of_input year_in = (if year_in \<noteq> [] then Some (js_Number year_in) else None)"

text \<open>
  \<open>cryptoRandomId()\<close> cuts an id out of \<open>Math.random()\<close>. The drawn id is the argument
  \<open>fresh\<close>: the source draws it only when it pushes the new record.
\<close>

definition addMovie ::
  "string \<Rightarrow> string \<Rightarrow> string \<Rightarrow> app_state \<Rightarrow> validation_error + app_state" where
  "addMovie title_in year_in fresh s =
     (let cleanTitle = sanitizeTitle title_in;
          yr = year_of_input year_in
      in if cleanTitle = [] then Inl EmptyTitle
         else if truthy yr \<and> (js_less yr 1888 \<or> js_greater yr 2100) then Inl YearOutOfRange
         else if list_ex
                   (\<lambda>m. toLowerCase (title m) = toLowerCase cleanTitle \<and>
                        truthy (year m) = truthy yr \<and> strict_eq (year m) yr)
                   (movies s)
         then Inl Duplicate
         else Inr (updateStats (renderList
                (s\<lparr>movies := movies s @
                     [\<lparr>movie_id = fresh, title = cleanTitle, year = yr, watched = False\<rparr>]\<rparr>))))"

text \<open>
  \<open>movies.find(x => x.id === id)\<close> returns the first record with that id, and the
  assignment \<open>m.watched = !m.watched\<close> changes that record inside the array.
\<close>

fun flip_first :: "string \<Rightarrow> movie list \<Rightarrow> movie list" where
  "flip_first i [] = []"
| "flip_first i (m # ms) =
     (if movie_id m = i then m\<lparr>watched := \<not> watched m\<rparr> # ms else m # flip_first i ms)"

definition toggleWatched :: "string \<Rightarrow> app_state \<Rightarrow> app_state" where
  "toggleWatched i s =
     (case find (\<lambda>x. movie_id x = i) (movies s) of
        None \<Rightarrow> s
      | Some m \<Rightarrow> updateStats (renderList (s\<lparr>movies := flip_first i (movies s)\<rparr>)))"

definition removeMovie :: "string \<Rightarrow> app_state \<Rightarrow> app_state" where
  "removeMovie i s =
     updateStats (renderList (s\<lparr>movies := filter (\<lambda>m. movie_id m \<noteq> i) (movies s)\<rparr>))"

text \<open>
  The state once the script has run to its end: the three seed records with the ids
  drawn for them, the view settings, and the initial \<open>renderList(); updateStats()\<close>.
\<close>

definition init :: "string \<Rightarrow> string \<Rightarrow> string \<Rightarrow> app_state" where
  "init i1 i2 i3 =
     updateStats (renderList
       \<lparr>movies =
          [\<lparr>movie_id = i1, title = ''The Iron Giant'', year = Some (Num 1999), watched = False\<rparr>,
           \<lparr>movie_id = i2, title = ''Get Out'', year = Some (Num 2017), watched = True\<rparr>,
           \<lparr>movie_id = i3, title = ''Your Name'', year = Some (Num 2016), watched = False\<rparr>],
        currentFilter = ''all'',
        currentQuery = '''',
        listEl = [],
        statsText = (0, 0, 0)\<rparr>)"

text \<open>
  The events of a session: the form is submitted (with the id that would be drawn), a
  record's toggle or remove button is clicked, the filter or the search text changes.
  A rejected submission leaves the state as it was.
\<close>

datatype op =
    Add string string string
  | Toggle string
  | Remove string
  | SetFilter string
  | SetQuery string

fun step :: "op \<Rightarrow> app_state \<Rightarrow> app_state" where
  "step (Add t y fresh) s = (case addMovie t y fresh s of Inl e \<Rightarrow> s | Inr s' \<Rightarrow> s')"
| "step (Toggle i) s = toggleWatched i s"
| "step (Remove i) s = removeMovie i s"
| "step (SetFilter f) s = updateStats (renderList (s\<lparr>currentFilter := f\<rparr>))"
| "step (SetQuery q) s = updateStats (renderList (s\<lparr>currentQuery := q\<rparr>))"

fun run :: "op list \<Rightarrow> app_state \<Rightarrow> app_state" where
  "run [] s = s"
| "run (x # xs) s = run xs (step x s)"

subsection \<open>The view and the stats as the specification words them\<close>

text \<open>
  The status filter has three values; the select element hands the script their names.
\<close>

datatype status_filter = ShowAll | ShowWatched | ShowUnwatched

fun filter_value :: "status_filter \<Rightarrow> string" where
  "filter_value ShowAll = ''all''"
| "filter_value ShowWatched = ''watched''"
| "filter_value ShowUnwatched = ''unwatched''"

fun status_passes :: "status_filter \<Rightarrow> movie \<Rightarrow> bool" where
  "status_passes ShowAll m = True"
| "status_passes ShowWatched m = watched m"
| "status_passes ShowUnwatched m = (\<not> watched m)"

text \<open>
  The stats summary: the size of the catalog, the number of watched records, and the
  difference of the two.
\<close>

definition stats_of :: "movie list \<Rightarrow> int \<times> int \<times> int" where
  "stats_of ms =
     (let total = int (length ms);
          watchedCount = int (length (filter watched ms))
      in (total, watchedCount, total - watchedCount))"

text \<open>The stats line shows the stats of the current catalog.\<close>

definition stats_shown :: "app_state \<Rightarrow> bool" where
  "stats_shown s = (statsText s = stats_of (movies s))"

subsection \<open>Sessions\<close>

text \<open>
  A session whose year texts are all read by the model as JavaScript reads them.
\<close>

fun op_text :: "op \<Rightarrow> bool" where
  "op_text (Add t y fresh) = year_text y"
| "op_text x = True"

text \<open>
  What the checks of \<open>addMovie\<close> establish for a stored record: the range check lets a
  year pass when it is falsy or lies in the range, and the duplicate check compares
  lower-cased titles and years with \<open>===\<close>.
\<close>

definition year_passes :: "jsnum option \<Rightarrow> bool" where
  "year_passes yr = (\<not> (truthy yr \<and> (js_less yr 1888 \<or> js_greater yr 2100)))"

definition catalog_inv :: "movie list \<Rightarrow> bool" where
  "catalog_inv ms =
     (list_all (\<lambda>m. title m \<noteq> [] \<and> year_passes (year m)) ms \<and>
      sorted_wrt
        (\<lambda>a b. \<not> (toLowerCase (title a) = toLowerCase (title b) \<and> strict_eq (year a) (year b)))
        ms)"

text \<open>
  The ids a session draws, one per submission, and the ids of the records it creates:
  the draws of the submissions that are accepted, in order.
\<close>

fun draws :: "op list \<Rightarrow> string list" where
  "draws [] = []"
| "draws (Add t y fresh # xs) = fresh # draws xs"
| "draws (x # xs) = draws xs"

fun created_ids :: "op list \<Rightarrow> app_state \<Rightarrow> string list" where
  "created_ids [] s = []"
| "created_ids (Add t y fresh # xs) s =
     (case addMovie t y fresh s of Inl e \<Rightarrow> [] | Inr s' \<Rightarrow> [fresh]) @
     created_ids xs (step (Add t y fresh) s)"
| "created_ids (x # xs) s = created_ids xs (step x s)"

section \<open>Title normalisation\<close>

lemma replace_runs_squeeze: "replace_runs t = squeeze_spaces t"
proof (induction t rule: squeeze_spaces.induct)
  case (1 a b cs)
  show ?case
  proof (cases "a = CHR '' '' \<and> b = CHR '' ''")
    case True
    have "replace_runs (a # b # cs) = CHR '' '' # replace_runs (dropWhile (\<lambda>x. x = CHR '' '') cs)"
      using True by (simp add: replace_runs_Cons del: replace_runs.simps)
    also have "\<dots> = replace_runs (b # cs)"
      using True by (cases cs) (auto simp: replace_runs_Cons simp del: replace_runs.simps)
    also have "\<dots> = squeeze_spaces (b # cs)"
      using 1(1) True by simp
    finally show ?thesis using True by simp
  next
    case False
    then have "replace_runs (a # b # cs) = a # replace_runs (b # cs)"
      by (auto simp: replace_runs_Cons simp del: replace_runs.simps)
    with 1(2) False show ?thesis by auto
  qed
qed simp_all

lemma hd_squeeze_spaces: "squeeze_spaces (b # cs) = b # tl (squeeze_spaces (b # cs))"
  by (induction cs arbitrary: b) auto

lemma squeeze_spaces_no_run: "\<not> str_includes (squeeze_spaces t) ''  ''"
proof (induction t rule: squeeze_spaces.induct)
  case (1 a b cs)
  show ?case
  proof (cases "a = CHR '' '' \<and> b = CHR '' ''")
    case True
    with 1(1) show ?thesis by simp
  next
    case False
    obtain r where r: "squeeze_spaces (b # cs) = b # r"
      using hd_squeeze_spaces by blast
    with 1(2) False show ?thesis
      by (auto simp: startsWith_def)
  qed
qed (simp_all add: startsWith_def)

lemma squeeze_spaces_id: "\<not> str_includes t ''  '' \<Longrightarrow> squeeze_spaces t = t"
  by (induction t rule: squeeze_spaces.induct) (auto simp: startsWith_def)

lemma collapse_loop_squeeze: "collapse_loop t = squeeze_spaces t"
proof (cases "str_includes t ''  ''")
  case True
  have "collapse_loop t = collapse_loop (squeeze_spaces t)"
    using True by (subst collapse_loop.simps) (simp add: replace_runs_squeeze)
  also have "\<dots> = squeeze_spaces t"
    by (subst collapse_loop.simps) (simp add: squeeze_spaces_no_run)
  finally show ?thesis .
next
  case False
  then show ?thesis
    by (subst collapse_loop.simps) (simp add: squeeze_spaces_id)
qed

lemma title_word_capitalise: "title_word = (\<lambda>w. if w = [] then w else capitalise w)"
proof
  fix w
  show "title_word w = (if w = [] then w else capitalise w)"
    by (cases w) (simp_all add: title_word_def capitalise_def toUpperCase_def toLowerCase_def)
qed

lemma trim_blank:
  assumes "list_all is_space raw"
  shows "trim raw = []"
proof -
  have blank: "dropWhile is_space raw = []"
    using assms by (induction raw) auto
  show ?thesis
    by (simp only: trim_def blank rev.simps dropWhile.simps)
qed

text \<open>
  C5: for every raw input, \<open>sanitizeTitle\<close> returns what the rules give when applied in
  order: trim the white space at both ends, collapse every run of two or more spaces into
  one, split on single spaces, capitalise each non-empty word (first character to upper
  case, the rest to lower case) and join with single spaces; an empty or blank input gives
  the empty string. Being a function of its argument alone, it gives the same output for
  the same input.
\<close>

theorem sanitizeTitle_rules:
  "sanitizeTitle raw = title_rules raw \<and> (list_all is_space raw \<longrightarrow> sanitizeTitle raw = [])"
proof -
  have eq: "sanitizeTitle raw = title_rules raw"
  proof (cases "raw = []")
    case True
    then show ?thesis
      by (simp add: sanitizeTitle_def title_rules_def trim_def)
  next
    case False
    then show ?thesis
      by (simp add: sanitizeTitle_def title_rules_def collapse_loop_squeeze title_word_capitalise)
  qed
  have "sanitizeTitle raw = []" if "list_all is_space raw"
    using that eq by (simp add: title_rules_def trim_blank)
  with eq show ?thesis by blast
qed

theorem sanitizeTitle_rules_witness:
  "list_all is_space [CHR 0x09, CHR '' ''] \<and> sanitizeTitle [CHR 0x09, CHR '' ''] = [] \<and>
   sanitizeTitle '' get   out '' = ''Get Out'' \<and>
   title_rules '' get   out '' = ''Get Out''"
  using sanitizeTitle_rules [of "[CHR 0x09, CHR '' '']"] sanitizeTitle_rules [of "'' get   out ''"]
  by (simp add: is_space_def title_rules_def trim_def capitalise_def upper_char_def lower_char_def)

section \<open>How the operations change the catalog\<close>

text \<open>
  Drawing the list and writing the stats line leave the catalog alone, so each operation
  changes the catalog as its first statement says.
\<close>

lemma movies_updateStats: "movies (updateStats s) = movies s"
  by (simp add: updateStats_def Let_def)

lemma movies_renderList: "movies (renderList s) = movies s"
  by (simp add: renderList_def)

lemmas movies_page = movies_updateStats movies_renderList

lemma flip_first_absent: "find (\<lambda>x. movie_id x = i) ms = None \<Longrightarrow> flip_first i ms = ms"
  by (induction ms) (auto split: if_splits)

lemma movies_toggleWatched: "movies (toggleWatched i s) = flip_first i (movies s)"
  by (simp add: toggleWatched_def flip_first_absent movies_page split: option.splits)

lemma movies_removeMovie: "movies (removeMovie i s) = filter (\<lambda>m. movie_id m \<noteq> i) (movies s)"
  by (simp add: removeMovie_def movies_page)

lemma movies_addMovie:
  "addMovie t y fresh s = Inr s' \<Longrightarrow>
   movies s' = movies s @
     [\<lparr>movie_id = fresh, title = sanitizeTitle t, year = year_of_input y, watched = False\<rparr>]"
  by (auto simp: addMovie_def Let_def movies_page split: if_splits)

lemma movies_init:
  "movies (init i1 i2 i3) =
     [\<lparr>movie_id = i1, title = ''The Iron Giant'', year = Some (Num 1999), watched = False\<rparr>,
      \<lparr>movie_id = i2, title = ''Get Out'', year = Some (Num 2017), watched = True\<rparr>,
      \<lparr>movie_id = i3, title = ''Your Name'', year = Some (Num 2016), watched = False\<rparr>]"
  by (simp add: init_def movies_page)

lemma movies_step_view:
  "movies (step (SetFilter f) s) = movies s" "movies (step (SetQuery q) s) = movies s"
  by (simp_all add: movies_page)

section \<open>The view projection\<close>

lemma startsWith_iff: "startsWith s q \<longleftrightarrow> (\<exists>vs. s = q @ vs)"
proof
  assume "startsWith s q"
  then have "s = q @ drop (length q) s"
    unfolding startsWith_def by (metis append_take_drop_id)
  then show "\<exists>vs. s = q @ vs" ..
next
  assume "\<exists>vs. s = q @ vs"
  then show "startsWith s q" by (auto simp: startsWith_def)
qed

lemma str_includes_iff: "str_includes s q \<longleftrightarrow> (\<exists>us vs. s = us @ q @ vs)"
proof (induction s)
  case Nil
  show ?case by auto
next
  case (Cons c cs)
  show ?case
  proof
    assume "str_includes (c # cs) q"
    then consider "startsWith (c # cs) q" | "str_includes cs q" by auto
    then show "\<exists>us vs. c # cs = us @ q @ vs"
    proof cases
      case 1
      then obtain vs where "c # cs = [] @ q @ vs" by (auto simp: startsWith_iff)
      then show ?thesis by blast
    next
      case 2
      with Cons.IH obtain us vs where "cs = us @ q @ vs" by blast
      then have "c # cs = (c # us) @ q @ vs" by simp
      then show ?thesis by blast
    qed
  next
    assume "\<exists>us vs. c # cs = us @ q @ vs"
    then obtain us vs where eq: "c # cs = us @ q @ vs" by blast
    show "str_includes (c # cs) q"
    proof (cases us)
      case Nil
      with eq have "startsWith (c # cs) q" by (auto simp: startsWith_iff)
      then show ?thesis by simp
    next
      case (Cons u us')
      with eq have "cs = us' @ q @ vs" by simp
      with Cons.IH have "str_includes cs q" by blast
      then show ?thesis by simp
    qed
  qed
qed

lemma status_passes_value:
  "(filter_value f = ''all'' \<or> (filter_value f = ''watched'' \<and> watched m) \<or>
    (filter_value f = ''unwatched'' \<and> \<not> watched m)) = status_passes f m"
  by (cases f) simp_all

text \<open>
  C6: for every catalog and view state, \<open>getVisibleMovies\<close> returns exactly the records
  that pass the status filter (\<open>all\<close> always passes, \<open>watched\<close> needs the flag set,
  \<open>unwatched\<close> needs it clear) and the search (an empty search text always passes,
  otherwise the lower-cased title contains the trimmed, lower-cased search text), in
  catalog order; with the filter \<open>all\<close> and an empty search text it returns the whole
  catalog.
\<close>

theorem getVisibleMovies_projection:
  "getVisibleMovies (s\<lparr>currentFilter := filter_value f\<rparr>) =
     filter
       (\<lambda>m. status_passes f m \<and>
            (currentQuery s = [] \<or>
             (\<exists>us vs. toLowerCase (title m) = us @ toLowerCase (trim (currentQuery s)) @ vs)))
       (movies s) \<and>
   getVisibleMovies (s\<lparr>currentFilter := ''all'', currentQuery := ''''\<rparr>) = movies s"
proof
  have search: "(toLowerCase (trim (currentQuery s)) = [] \<or>
                 str_includes (toLowerCase (title m)) (toLowerCase (trim (currentQuery s)))) =
                (currentQuery s = [] \<or>
                 (\<exists>us vs. toLowerCase (title m) = us @ toLowerCase (trim (currentQuery s)) @ vs))"
    for m
  proof (cases "toLowerCase (trim (currentQuery s)) = []")
    case True
    then show ?thesis by auto
  next
    case False
    then have "currentQuery s \<noteq> []"
      by (auto simp: trim_def toLowerCase_def)
    then show ?thesis by (simp add: str_includes_iff False)
  qed
  show "getVisibleMovies (s\<lparr>currentFilter := filter_value f\<rparr>) =
     filter
       (\<lambda>m. status_passes f m \<and>
            (currentQuery s = [] \<or>
             (\<exists>us vs. toLowerCase (title m) = us @ toLowerCase (trim (currentQuery s)) @ vs)))
       (movies s)"
    unfolding getVisibleMovies_def Let_def
    by (simp add: status_passes_value search)
  show "getVisibleMovies (s\<lparr>currentFilter := ''all'', currentQuery := ''''\<rparr>) = movies s"
    by (simp add: getVisibleMovies_def trim_def toLowerCase_def)
qed

section \<open>The stats line\<close>

lemma count_watched_eq:
  "count_watched ms i w = w + int (length (filter watched (drop i ms)))"
proof (induction ms i w rule: count_watched.induct)
  case (1 ms i w)
  show ?case
  proof (cases "i < length ms")
    case True
    then have "drop i ms = ms ! i # drop (i + 1) ms"
      by (simp add: Cons_nth_drop_Suc)
    with 1 [OF True] True show ?thesis
      by (subst count_watched.simps) simp
  next
    case False
    then show ?thesis by (subst count_watched.simps) simp
  qed
qed

lemma statsText_updateStats: "statsText (updateStats s) = stats_of (movies s)"
  by (simp add: updateStats_def stats_of_def count_watched_eq Let_def)

lemma stats_shown_update: "stats_shown (updateStats s)"
  by (simp add: stats_shown_def statsText_updateStats movies_updateStats)

lemma stats_shown_step: "stats_shown s \<Longrightarrow> stats_shown (step x s)"
  by (cases x) (auto simp: addMovie_def toggleWatched_def removeMovie_def Let_def
      stats_shown_update split: option.splits)

lemma stats_shown_run: "stats_shown s \<Longrightarrow> stats_shown (run xs s)"
  by (induction xs arbitrary: s) (simp_all add: stats_shown_step)

text \<open>
  C7: \<open>updateStats\<close> writes the stats of the full catalog, whatever the filter and the
  search text are: the total is the size of the catalog, the watched count the number of
  records with the flag set, the remaining count their difference. After any sequence of
  operations from the initial state the stats line shows these numbers for the current
  catalog, and the total is the sum of the other two.
\<close>

theorem stats_after_every_operation:
  "statsText (updateStats s) = stats_of (movies s) \<and>
   statsText (updateStats (s\<lparr>currentFilter := f, currentQuery := q\<rparr>)) = stats_of (movies s) \<and>
   statsText (run xs (init i1 i2 i3)) = stats_of (movies (run xs (init i1 i2 i3))) \<and>
   fst (statsText (run xs (init i1 i2 i3))) =
     fst (snd (statsText (run xs (init i1 i2 i3)))) + snd (snd (statsText (run xs (init i1 i2 i3))))"
proof -
  have "stats_shown (init i1 i2 i3)"
    by (simp add: init_def stats_shown_update)
  then have shown: "statsText (run xs (init i1 i2 i3)) = stats_of (movies (run xs (init i1 i2 i3)))"
    using stats_shown_run stats_shown_def by blast
  then show ?thesis
    by (simp add: statsText_updateStats) (simp add: stats_of_def Let_def)
qed

section \<open>Toggle and remove\<close>

lemma flip_first_twice: "flip_first i (flip_first i ms) = ms"
  by (induction ms) auto

lemma length_flip_first: "length (flip_first i ms) = length ms"
  by (induction ms) auto

lemma flip_first_fields:
  "map movie_id (flip_first i ms) = map movie_id ms \<and>
   map title (flip_first i ms) = map title ms \<and>
   map year (flip_first i ms) = map year ms"
  by (induction ms) auto

lemma flip_first_update:
  "i \<in> set (map movie_id ms) \<Longrightarrow>
   \<exists>k. k < length ms \<and> movie_id (ms ! k) = i \<and> list_all (\<lambda>m. movie_id m \<noteq> i) (take k ms) \<and>
       flip_first i ms = ms[k := (ms ! k)\<lparr>watched := \<not> watched (ms ! k)\<rparr>]"
proof (induction ms)
  case Nil
  then show ?case by simp
next
  case (Cons m ms)
  show ?case
  proof (cases "movie_id m = i")
    case True
    then have "0 < length (m # ms) \<and> movie_id ((m # ms) ! 0) = i \<and>
               list_all (\<lambda>m. movie_id m \<noteq> i) (take 0 (m # ms)) \<and>
               flip_first i (m # ms) = (m # ms)[0 := ((m # ms) ! 0)\<lparr>watched := \<not> watched ((m # ms) ! 0)\<rparr>]"
      by simp
    then show ?thesis by blast
  next
    case False
    with Cons.prems have "i \<in> set (map movie_id ms)" by auto
    with Cons.IH obtain k where k: "k < length ms" "movie_id (ms ! k) = i"
        "list_all (\<lambda>m. movie_id m \<noteq> i) (take k ms)"
        "flip_first i ms = ms[k := (ms ! k)\<lparr>watched := \<not> watched (ms ! k)\<rparr>]"
      by blast
    with False have "Suc k < length (m # ms) \<and> movie_id ((m # ms) ! Suc k) = i \<and>
               list_all (\<lambda>m. movie_id m \<noteq> i) (take (Suc k) (m # ms)) \<and>
               flip_first i (m # ms) =
                 (m # ms)[Suc k := ((m # ms) ! Suc k)\<lparr>watched := \<not> watched ((m # ms) ! Suc k)\<rparr>]"
      by simp
    then show ?thesis by blast
  qed
qed

text \<open>
  C8: toggling the same id twice in succession gives back the catalog, so every record has
  its original watched flag again, and a toggle never changes the length of the catalog,
  whether or not the id is found.
\<close>

theorem toggle_twice:
  "movies (toggleWatched i (toggleWatched i s)) = movies s \<and>
   length (movies (toggleWatched i s)) = length (movies s)"
  by (simp add: movies_toggleWatched flip_first_twice length_flip_first)

text \<open>
  C9: removing an id that no stored record has leaves the catalog as it was: the same
  records with the same fields in the same order.
\<close>

theorem remove_absent:
  assumes "i \<notin> set (map movie_id (movies s))"
  shows "movies (removeMovie i s) = movies s"
proof -
  have "filter (\<lambda>m. movie_id m \<noteq> i) (movies s) = movies s"
    using assms by (auto simp: filter_id_conv)
  then show ?thesis by (simp add: movies_removeMovie)
qed

theorem remove_absent_witness:
  "''zz'' \<notin> set (map movie_id (movies (init ''a'' ''b'' ''c''))) \<and>
   movies (removeMovie ''zz'' (init ''a'' ''b'' ''c'')) = movies (init ''a'' ''b'' ''c'') \<and>
   length (movies (removeMovie ''b'' (init ''a'' ''b'' ''c''))) = 2"
  using remove_absent [of "''zz''" "init ''a'' ''b'' ''c''"]
  by (simp add: movies_init movies_removeMovie)

text \<open>
  C10: toggling the id of a stored record leaves the ids, titles and years of all records
  and the length and order of the catalog as they were; the catalog changes at one
  position only, the first record with that id, and there only in the watched flag.
\<close>

theorem toggle_frame:
  assumes "i \<in> set (map movie_id (movies s))"
  shows "map movie_id (movies (toggleWatched i s)) = map movie_id (movies s) \<and>
         map title (movies (toggleWatched i s)) = map title (movies s) \<and>
         map year (movies (toggleWatched i s)) = map year (movies s) \<and>
         length (movies (toggleWatched i s)) = length (movies s) \<and>
         (\<exists>k. k < length (movies s) \<and> movie_id (movies s ! k) = i \<and>
              list_all (\<lambda>m. movie_id m \<noteq> i) (take k (movies s)) \<and>
              movies (toggleWatched i s) =
                (movies s)[k := (movies s ! k)\<lparr>watched := \<not> watched (movies s ! k)\<rparr>])"
  using assms flip_first_update [of i "movies s"]
  by (simp add: movies_toggleWatched flip_first_fields length_flip_first)

theorem toggle_frame_witness:
  "''b'' \<in> set (map movie_id (movies (init ''a'' ''b'' ''c''))) \<and>
   map movie_id (movies (toggleWatched ''b'' (init ''a'' ''b'' ''c''))) = [''a'', ''b'', ''c''] \<and>
   map watched (movies (init ''a'' ''b'' ''c'')) = [False, True, False] \<and>
   map watched (movies (toggleWatched ''b'' (init ''a'' ''b'' ''c''))) = [False, False, False]"
  using toggle_frame [of "''b''" "init ''a'' ''b'' ''c''"]
  by (simp add: movies_init movies_toggleWatched)

section \<open>Duplicates\<close>

lemma strict_eq_iff:
  "strict_eq a b \<longleftrightarrow> (a = None \<and> b = None) \<or> (\<exists>n. a = Some (Num n) \<and> b = Some (Num n))"
  by (induction a b rule: strict_eq.induct) auto

lemma strict_eq_truthy: "strict_eq a b \<Longrightarrow> truthy a = truthy b"
  by (auto simp: strict_eq_iff)

lemma addMovie_accepts:
  assumes "addMovie t y fresh s = Inr s'"
  shows "sanitizeTitle t \<noteq> [] \<and> year_passes (year_of_input y) \<and>
   list_all (\<lambda>m. \<not> (toLowerCase (title m) = toLowerCase (sanitizeTitle t) \<and>
                     strict_eq (year m) (year_of_input y))) (movies s)"
proof -
  from assms have clean: "sanitizeTitle t \<noteq> []" and range: "year_passes (year_of_input y)"
    and none: "\<not> list_ex (\<lambda>m. toLowerCase (title m) = toLowerCase (sanitizeTitle t) \<and>
        truthy (year m) = truthy (year_of_input y) \<and> strict_eq (year m) (year_of_input y))
      (movies s)"
    by (simp_all add: addMovie_def Let_def year_passes_def split: if_splits)
  from none have "list_all (\<lambda>m. \<not> (toLowerCase (title m) = toLowerCase (sanitizeTitle t) \<and>
                     strict_eq (year m) (year_of_input y))) (movies s)"
    using strict_eq_truthy by (auto simp: list_all_iff list_ex_iff)
  with clean range show ?thesis by simp
qed

lemma catalog_inv_add:
  assumes "catalog_inv (movies s)" and "addMovie t y fresh s = Inr s'"
  shows "catalog_inv (movies s')"
proof -
  from addMovie_accepts [OF assms(2)] have ok: "sanitizeTitle t \<noteq> []" "year_passes (year_of_input y)"
    and fresh: "list_all (\<lambda>m. \<not> (toLowerCase (title m) = toLowerCase (sanitizeTitle t) \<and>
                     strict_eq (year m) (year_of_input y))) (movies s)"
    by blast+
  with assms(1) show ?thesis
    by (simp add: movies_addMovie [OF assms(2)] catalog_inv_def sorted_wrt_append list_all_iff)
qed

lemma flip_first_keys:
  "map (\<lambda>m. (title m, year m)) (flip_first i ms) = map (\<lambda>m. (title m, year m)) ms"
  by (induction ms) auto

lemma catalog_inv_keys:
  "catalog_inv ms =
     (list_all (\<lambda>k. fst k \<noteq> [] \<and> year_passes (snd k)) (map (\<lambda>m. (title m, year m)) ms) \<and>
      sorted_wrt (\<lambda>a b. \<not> (toLowerCase (fst a) = toLowerCase (fst b) \<and> strict_eq (snd a) (snd b)))
        (map (\<lambda>m. (title m, year m)) ms))"
  by (simp add: catalog_inv_def sorted_wrt_map list_all_iff)

lemma catalog_inv_flip: "catalog_inv ms \<Longrightarrow> catalog_inv (flip_first i ms)"
  by (simp only: catalog_inv_keys flip_first_keys)

lemma catalog_inv_filter: "catalog_inv ms \<Longrightarrow> catalog_inv (filter P ms)"
  by (simp add: catalog_inv_def sorted_wrt_filter list_all_iff)

lemma catalog_inv_step: "catalog_inv (movies s) \<Longrightarrow> catalog_inv (movies (step x s))"
proof (cases x)
  case (Add t y fresh)
  assume "catalog_inv (movies s)"
  with Add show ?thesis
    by (cases "addMovie t y fresh s") (simp_all add: catalog_inv_add)
qed (simp_all add: movies_toggleWatched movies_removeMovie movies_page catalog_inv_flip
    catalog_inv_filter)

lemma catalog_inv_run: "catalog_inv (movies s) \<Longrightarrow> catalog_inv (movies (run xs s))"
  by (induction xs arbitrary: s) (simp_all add: catalog_inv_step)

lemma catalog_inv_init: "catalog_inv (movies (init i1 i2 i3))"
  by (simp add: movies_init catalog_inv_def year_passes_def toLowerCase_def lower_char_def)

lemma toLowerCase_Nil: "toLowerCase t = [] \<longleftrightarrow> t = []"
  by (simp add: toLowerCase_def)

lemma duplicate_found:
  assumes inv: "catalog_inv (movies s)"
    and m: "m \<in> set (movies s)"
    and t: "toLowerCase (title m) = toLowerCase (sanitizeTitle raw)"
    and y: "strict_eq (year m) (year_of_input y)"
  shows "addMovie raw y fresh s = Inl Duplicate"
proof -
  from inv m have tm: "title m \<noteq> []" and ym: "year_passes (year m)"
    by (auto simp: catalog_inv_def list_all_iff)
  from tm t have clean: "sanitizeTitle raw \<noteq> []"
    by (metis toLowerCase_Nil)
  from y have same: "year_of_input y = year m"
    by (auto simp: strict_eq_iff)
  from ym same have range: "\<not> (truthy (year_of_input y) \<and>
      (js_less (year_of_input y) 1888 \<or> js_greater (year_of_input y) 2100))"
    by (simp add: year_passes_def)
  from m t y same have "list_ex (\<lambda>m. toLowerCase (title m) = toLowerCase (sanitizeTitle raw) \<and>
        truthy (year m) = truthy (year_of_input y) \<and> strict_eq (year m) (year_of_input y))
      (movies s)"
    by (auto simp: list_ex_iff)
  with clean range show ?thesis
    by (simp add: addMovie_def Let_def)
qed

text \<open>
  What the duplicate check does achieve. In every state reached from the seed data (by
  sessions whose year texts the model reads), an add whose normalised title equals,
  ignoring case, the title of a stored record and whose parsed year matches that
  record's year (both null, or both the same integer) fails as a duplicate and leaves
  the state unchanged; and no two stored records have the same lower-cased title
  together with matching years.
\<close>

lemma duplicates_rejected:
  fixes xs i1 i2 i3
  defines "s \<equiv> run xs (init i1 i2 i3)"
  assumes "list_all op_text xs" and "year_text y"
  shows "(\<forall>m\<in>set (movies s).
            toLowerCase (title m) = toLowerCase (sanitizeTitle raw) \<and>
            (year m = None \<and> year_of_input y = None \<or>
             (\<exists>n. year m = Some (Num n) \<and> year_of_input y = Some (Num n))) \<longrightarrow>
            addMovie raw y fresh s = Inl Duplicate \<and> step (Add raw y fresh) s = s) \<and>
         (\<forall>j k. j < k \<and> k < length (movies s) \<and>
                toLowerCase (title (movies s ! j)) = toLowerCase (title (movies s ! k)) \<longrightarrow>
                \<not> (year (movies s ! j) = None \<and> year (movies s ! k) = None \<or>
                   (\<exists>n. year (movies s ! j) = Some (Num n) \<and> year (movies s ! k) = Some (Num n))))"
proof -
  have inv: "catalog_inv (movies s)"
    unfolding s_def by (rule catalog_inv_run) (rule catalog_inv_init)
  have dup: "addMovie raw y fresh s = Inl Duplicate \<and> step (Add raw y fresh) s = s"
    if "m \<in> set (movies s)" "toLowerCase (title m) = toLowerCase (sanitizeTitle raw)"
      "year m = None \<and> year_of_input y = None \<or>
       (\<exists>n. year m = Some (Num n) \<and> year_of_input y = Some (Num n))" for m
  proof -
    from that(3) have "strict_eq (year m) (year_of_input y)"
      by (simp add: strict_eq_iff)
    with inv that(1,2) have "addMovie raw y fresh s = Inl Duplicate"
      by (rule duplicate_found)
    then show ?thesis by simp
  qed
  have pairs: "\<not> (year (movies s ! j) = None \<and> year (movies s ! k) = None \<or>
                   (\<exists>n. year (movies s ! j) = Some (Num n) \<and> year (movies s ! k) = Some (Num n)))"
    if "j < k" "k < length (movies s)"
      "toLowerCase (title (movies s ! j)) = toLowerCase (title (movies s ! k))" for j k
  proof -
    from inv that(1,2)
    have "\<not> (toLowerCase (title (movies s ! j)) = toLowerCase (title (movies s ! k)) \<and>
             strict_eq (year (movies s ! j)) (year (movies s ! k)))"
      by (simp add: catalog_inv_def sorted_wrt_iff_nth_less)
    with that(3) show ?thesis by (simp add: strict_eq_iff)
  qed
  from dup pairs show ?thesis by blast
qed

lemma duplicates_rejected_example:
  "list_all op_text [Add ''dune'' '''' ''d''] \<and> year_text ''2017'' \<and>
   movies (run [Add ''dune'' '''' ''d''] (init ''a'' ''b'' ''c'')) ! 1 =
     \<lparr>movie_id = ''b'', title = ''Get Out'', year = Some (Num 2017), watched = True\<rparr> \<and>
   toLowerCase ''Get Out'' = toLowerCase (sanitizeTitle '' get   out '') \<and>
   year_of_input ''2017'' = Some (Num 2017) \<and>
   addMovie '' get   out '' ''2017'' ''e'' (run [Add ''dune'' '''' ''d''] (init ''a'' ''b'' ''c''))
     = Inl Duplicate \<and>
   step (Add '' get   out '' ''2017'' ''e'') (run [Add ''dune'' '''' ''d''] (init ''a'' ''b'' ''c''))
     = run [Add ''dune'' '''' ''d''] (init ''a'' ''b'' ''c'')"
proof -
  let ?s = "run [Add ''dune'' '''' ''d''] (init ''a'' ''b'' ''c'')"
  let ?m = "\<lparr>movie_id = ''b'', title = ''Get Out'', year = Some (Num 2017), watched = True\<rparr>"
  have ops: "list_all op_text [Add ''dune'' '''' ''d'']" by code_simp
  have ytext: "year_text ''2017''" by code_simp
  have nth: "movies ?s ! 1 = ?m" by code_simp
  have len: "length (movies ?s) = 4" by code_simp
  have low: "toLowerCase ''Get Out'' = toLowerCase (sanitizeTitle '' get   out '')" by code_simp
  have yr: "year_of_input ''2017'' = Some (Num 2017)" by code_simp
  from nth len have mem: "?m \<in> set (movies ?s)"
    by (metis nth_mem one_less_numeral_iff semiring_norm(76))
  from duplicates_rejected [OF ops ytext, of "''a''" "''b''" "''c''" "'' get   out ''" "''e''"]
  have "\<forall>m\<in>set (movies ?s).
            toLowerCase (title m) = toLowerCase (sanitizeTitle '' get   out '') \<and>
            (year m = None \<and> year_of_input ''2017'' = None \<or>
             (\<exists>n. year m = Some (Num n) \<and> year_of_input ''2017'' = Some (Num n))) \<longrightarrow>
            addMovie '' get   out '' ''2017'' ''e'' ?s = Inl Duplicate \<and>
            step (Add '' get   out '' ''2017'' ''e'') ?s = ?s"
    by (rule conjunct1)
  from bspec [OF this mem] low yr
  have "addMovie '' get   out '' ''2017'' ''e'' ?s = Inl Duplicate \<and>
        step (Add '' get   out '' ''2017'' ''e'') ?s = ?s"
    by simp
  with ops ytext nth low yr show ?thesis by blast
qed

text \<open>
  C3: the claim asks that no two stored records share a lower-cased title and a year.
  A year text that is no number is stored as \<open>NaN\<close>, and \<open>m.year === yr\<close> is false
  when both years are \<open>NaN\<close>: the same title with the same year text is accepted twice,
  and the catalog then holds two records with the same lower-cased title and the same
  year field.
\<close>

theorem nan_year_repeats:
  "list_all op_text [Add ''dune'' ''abc'' ''d'', Add ''dune'' ''abc'' ''e''] \<and>
   year_of_input ''abc'' = Some NaN \<and>
   map (\<lambda>m. (toLowerCase (title m), year m))
     (movies (run [Add ''dune'' ''abc'' ''d'', Add ''dune'' ''abc'' ''e''] (init ''a'' ''b'' ''c''))) =
     [(''the iron giant'', Some (Num 1999)), (''get out'', Some (Num 2017)),
      (''your name'', Some (Num 2016)), (''dune'', Some NaN), (''dune'', Some NaN)]"
  by code_simp

section \<open>Record ids\<close>

lemma ids_step:
  assumes "distinct (seen @ draws (x # xs))"
    and "set (map movie_id (movies s)) \<subseteq> set seen"
    and "distinct (map movie_id (movies s))"
  shows "\<exists>new. created_ids (x # xs) s = new @ created_ids xs (step x s) \<and>
           distinct ((seen @ new) @ draws xs) \<and>
           set (map movie_id (movies (step x s))) \<subseteq> set (seen @ new) \<and>
           distinct (map movie_id (movies (step x s)))"
proof (cases x)
  case (Add t y fresh)
  show ?thesis
  proof (cases "addMovie t y fresh s")
    case (Inl e)
    with Add assms have "created_ids (x # xs) s = [] @ created_ids xs (step x s) \<and>
           distinct ((seen @ []) @ draws xs) \<and>
           set (map movie_id (movies (step x s))) \<subseteq> set (seen @ []) \<and>
           distinct (map movie_id (movies (step x s)))"
      by simp
    then show ?thesis by blast
  next
    case (Inr s')
    from assms(1) Add have fresh: "fresh \<notin> set seen" by auto
    with assms(2) have "fresh \<notin> set (map movie_id (movies s))" by blast
    with Inr Add assms have "created_ids (x # xs) s = [fresh] @ created_ids xs (step x s) \<and>
           distinct ((seen @ [fresh]) @ draws xs) \<and>
           set (map movie_id (movies (step x s))) \<subseteq> set (seen @ [fresh]) \<and>
           distinct (map movie_id (movies (step x s)))"
      by (auto simp: movies_addMovie)
    then show ?thesis by blast
  qed
next
  case (Toggle i)
  with assms have "created_ids (x # xs) s = [] @ created_ids xs (step x s) \<and>
           distinct ((seen @ []) @ draws xs) \<and>
           set (map movie_id (movies (step x s))) \<subseteq> set (seen @ []) \<and>
           distinct (map movie_id (movies (step x s)))"
    by (simp add: movies_toggleWatched flip_first_fields)
  then show ?thesis by blast
next
  case (Remove i)
  with assms have "created_ids (x # xs) s = [] @ created_ids xs (step x s) \<and>
           distinct ((seen @ []) @ draws xs) \<and>
           set (map movie_id (movies (step x s))) \<subseteq> set (seen @ []) \<and>
           distinct (map movie_id (movies (step x s)))"
    by (auto simp: movies_removeMovie distinct_map_filter)
  then show ?thesis by blast
next
  case (SetFilter f)
  with assms have "created_ids (x # xs) s = [] @ created_ids xs (step x s) \<and>
           distinct ((seen @ []) @ draws xs) \<and>
           set (map movie_id (movies (step x s))) \<subseteq> set (seen @ []) \<and>
           distinct (map movie_id (movies (step x s)))"
    by (simp add: movies_page)
  then show ?thesis by blast
next
  case (SetQuery q)
  with assms have "created_ids (x # xs) s = [] @ created_ids xs (step x s) \<and>
           distinct ((seen @ []) @ draws xs) \<and>
           set (map movie_id (movies (step x s))) \<subseteq> set (seen @ []) \<and>
           distinct (map movie_id (movies (step x s)))"
    by (simp add: movies_page)
  then show ?thesis by blast
qed

lemma ids_run:
  "distinct (seen @ draws xs) \<Longrightarrow>
   set (map movie_id (movies s)) \<subseteq> set seen \<Longrightarrow>
   distinct (map movie_id (movies s)) \<Longrightarrow>
   distinct (seen @ created_ids xs s) \<and>
   distinct (map movie_id (movies (run xs s))) \<and>
   set (map movie_id (movies (run xs s))) \<subseteq> set (seen @ created_ids xs s)"
proof (induction xs arbitrary: s seen)
  case Nil
  then show ?case by simp
next
  case (Cons x xs)
  from ids_step [OF Cons.prems] obtain new where
    new: "created_ids (x # xs) s = new @ created_ids xs (step x s)"
      "distinct ((seen @ new) @ draws xs)"
      "set (map movie_id (movies (step x s))) \<subseteq> set (seen @ new)"
      "distinct (map movie_id (movies (step x s)))"
    by blast
  from Cons.IH [OF new(2,3,4)] new(1) show ?case
    by simp
qed

lemma ids_init: "map movie_id (movies (init i1 i2 i3)) = [i1, i2, i3]"
  by (simp add: movies_init)

text \<open>
  C4, amended: when the ids drawn in a session, three for the seed records and one per
  submission, are pairwise different, the ids of all records ever created are pairwise
  different (so no id comes back after its record is removed), and the records of the
  catalog have pairwise different ids, each the id of a record ever created. (A rejected
  submission draws no id; the one supplied for it is not used.)
\<close>

theorem ids_unique_when_draws_differ:
  assumes "distinct (i1 # i2 # i3 # draws xs)"
  shows "distinct (map movie_id (movies (init i1 i2 i3)) @ created_ids xs (init i1 i2 i3)) \<and>
         distinct (map movie_id (movies (run xs (init i1 i2 i3)))) \<and>
         set (map movie_id (movies (run xs (init i1 i2 i3)))) \<subseteq>
           set (map movie_id (movies (init i1 i2 i3)) @ created_ids xs (init i1 i2 i3))"
proof -
  have draws: "distinct ([i1, i2, i3] @ draws xs)"
    using assms by simp
  have known: "set (map movie_id (movies (init i1 i2 i3))) \<subseteq> set [i1, i2, i3]"
    by (simp add: ids_init)
  have seeds: "distinct (map movie_id (movies (init i1 i2 i3)))"
    using assms by (simp add: ids_init)
  from ids_run [OF draws known seeds] show ?thesis
    by (simp add: ids_init)
qed

theorem ids_unique_when_draws_differ_witness:
  "distinct [''a'', ''b'', ''c'', ''d'', ''e''] \<and>
   draws [Add ''dune'' '''' ''d'', Remove ''d'', Add ''dune'' '''' ''e''] = [''d'', ''e''] \<and>
   created_ids [Add ''dune'' '''' ''d'', Remove ''d'', Add ''dune'' '''' ''e'']
     (init ''a'' ''b'' ''c'') = [''d'', ''e''] \<and>
   distinct (map movie_id (movies (init ''a'' ''b'' ''c'')) @
     created_ids [Add ''dune'' '''' ''d'', Remove ''d'', Add ''dune'' '''' ''e'']
       (init ''a'' ''b'' ''c'')) \<and>
   distinct (map movie_id (movies
     (run [Add ''dune'' '''' ''d'', Remove ''d'', Add ''dune'' '''' ''e''] (init ''a'' ''b'' ''c''))))"
proof -
  let ?xs = "[Add ''dune'' '''' ''d'', Remove ''d'', Add ''dune'' '''' ''e'']"
  have draws: "draws ?xs = [''d'', ''e'']" by simp
  have differ: "distinct (''a'' # ''b'' # ''c'' # draws ?xs)" by simp
  have created: "created_ids ?xs (init ''a'' ''b'' ''c'') = [''d'', ''e'']" by code_simp
  have five: "distinct [''a'', ''b'', ''c'', ''d'', ''e'']" by simp
  note unique = ids_unique_when_draws_differ [OF differ]
  from unique have ever: "distinct (map movie_id (movies (init ''a'' ''b'' ''c'')) @
      created_ids ?xs (init ''a'' ''b'' ''c''))"
    by (rule conjunct1)
  from unique have now: "distinct (map movie_id (movies (run ?xs (init ''a'' ''b'' ''c''))))"
    by (rule conjunct1 [OF conjunct2])
  from five draws created ever now show ?thesis
    by (intro conjI)
qed

text \<open>
  C4 as stated fails when a draw repeats: nothing compares a drawn id with the ids in
  use. Here the id of a removed record comes back, and a new record shares the id of a
  stored one.
\<close>

theorem ids_repeat_counterexample:
  "created_ids [Remove ''a'', Add ''dune'' '''' ''a''] (init ''a'' ''b'' ''c'') = [''a''] \<and>
   \<not> distinct (map movie_id (movies (init ''a'' ''b'' ''c'')) @
       created_ids [Remove ''a'', Add ''dune'' '''' ''a''] (init ''a'' ''b'' ''c'')) \<and>
   map movie_id (movies (run [Add ''dune'' '''' ''b''] (init ''a'' ''b'' ''c''))) =
     [''a'', ''b'', ''c'', ''b'']"
proof -
  have created: "created_ids [Remove ''a'', Add ''dune'' '''' ''a''] (init ''a'' ''b'' ''c'') = [''a'']"
    by code_simp
  have ids: "map movie_id (movies (run [Add ''dune'' '''' ''b''] (init ''a'' ''b'' ''c''))) =
     [''a'', ''b'', ''c'', ''b'']"
    by code_simp
  have "\<not> distinct (map movie_id (movies (init ''a'' ''b'' ''c'')) @
       created_ids [Remove ''a'', Add ''dune'' '''' ''a''] (init ''a'' ''b'' ''c''))"
    unfolding created ids_init by simp
  with created ids show ?thesis
    by (intro conjI)
qed

section \<open>The year check\<close>

lemma year_passes_iff:
  "year_passes yr \<longleftrightarrow>
     yr = None \<or> yr = Some NaN \<or> yr = Some (Num 0) \<or>
     (\<exists>n. yr = Some (Num n) \<and> 1888 \<le> n \<and> n \<le> 2100)"
proof (cases yr)
  case None
  then show ?thesis by (simp add: year_passes_def)
next
  case (Some v)
  then show ?thesis by (cases v) (auto simp: year_passes_def)
qed

text \<open>
  What does hold of every stored record in a state reached from the seed data: its
  title is not empty, and its year is null, \<open>NaN\<close>, 0 or an integer in the range.
\<close>

lemma stored_records:
  assumes "list_all op_text xs" and "m \<in> set (movies (run xs (init i1 i2 i3)))"
  shows "title m \<noteq> [] \<and>
         (year m = None \<or> year m = Some NaN \<or> year m = Some (Num 0) \<or>
          (\<exists>n. year m = Some (Num n) \<and> 1888 \<le> n \<and> n \<le> 2100))"
proof -
  have "catalog_inv (movies (run xs (init i1 i2 i3)))"
    by (rule catalog_inv_run) (rule catalog_inv_init)
  with assms(2) have "title m \<noteq> [] \<and> year_passes (year m)"
    by (simp add: catalog_inv_def list_all_iff)
  then show ?thesis by (simp add: year_passes_iff)
qed

text \<open>
  The range check itself: once the title is not empty, an integer year other than 0 is
  rejected exactly when it lies outside the range; 0 is never rejected by it.
\<close>

lemma year_check:
  assumes "year_text y" and "sanitizeTitle raw \<noteq> []" and "year_of_input y = Some (Num n)"
  shows "n \<noteq> 0 \<and> (n < 1888 \<or> 2100 < n) \<longrightarrow>
           addMovie raw y fresh s = Inl YearOutOfRange \<and> step (Add raw y fresh) s = s"
    and "n = 0 \<or> (1888 \<le> n \<and> n \<le> 2100) \<longrightarrow> addMovie raw y fresh s \<noteq> Inl YearOutOfRange"
  using assms by (auto simp: addMovie_def Let_def)

text \<open>
  C1: the claim asks that an add whose year text converts to an integer outside
  [1888, 2100] fails as out of range and changes nothing. The year text \<open>0\<close> converts to
  the integer 0, yet the add is accepted and appends a record with year 0: the guard
  \<open>yr && \<dots>\<close> skips the range check for a falsy year. The years 1887 and 2101 are
  rejected and the bounds 1888 and 2100 are accepted.
\<close>

theorem year_zero_accepted:
  "year_text ''0'' \<and> year_of_input ''0'' = Some (Num 0) \<and>
   map_sum id movies (addMovie ''dune'' ''0'' ''d'' (init ''a'' ''b'' ''c'')) =
     Inr (movies (init ''a'' ''b'' ''c'') @
          [\<lparr>movie_id = ''d'', title = ''Dune'', year = Some (Num 0), watched = False\<rparr>]) \<and>
   addMovie ''dune'' ''1887'' ''d'' (init ''a'' ''b'' ''c'') = Inl YearOutOfRange \<and>
   addMovie ''dune'' ''2101'' ''d'' (init ''a'' ''b'' ''c'') = Inl YearOutOfRange \<and>
   map_sum id (\<lambda>s. map year (movies s)) (addMovie ''dune'' ''1888'' ''d'' (init ''a'' ''b'' ''c'')) =
     Inr [Some (Num 1999), Some (Num 2017), Some (Num 2016), Some (Num 1888)] \<and>
   map_sum id (\<lambda>s. map year (movies s)) (addMovie ''dune'' ''2100'' ''d'' (init ''a'' ''b'' ''c'')) =
     Inr [Some (Num 1999), Some (Num 2017), Some (Num 2016), Some (Num 2100)]"
  by code_simp

text \<open>
  C2: the claim asks that every stored year is null or an integer in [1888, 2100]. A
  state reached from the seed data by two adds stores a record with year 0 and a record
  whose year is \<open>NaN\<close>.
\<close>

theorem year_zero_stored:
  "list_all op_text [Add ''dune'' ''0'' ''d'', Add ''tenet'' ''abc'' ''e''] \<and>
   map year (movies (run [Add ''dune'' ''0'' ''d'', Add ''tenet'' ''abc'' ''e'']
     (init ''a'' ''b'' ''c''))) =
     [Some (Num 1999), Some (Num 2017), Some (Num 2016), Some (Num 0), Some NaN]"
  by code_simp

end
